theory Spec2Isabelle
  imports Main "HOL-Library.Sublist" "HOL-Library.AList"
begin

section \<open>Sleep records of an Apple Health export: the program\<close>

text \<open>
  The program is one function, \<open>extract_sleep_data\<close> of \<^verbatim>\<open>extract_sleep.py\<close>. It opens a
  zip archive, reads the entry \<^verbatim>\<open>apple_health_export/export.xml\<close> event by event, keeps the
  \<^verbatim>\<open>Record\<close> elements whose type names sleep, turns them into a data frame, parses the three
  date columns, keeps the rows of the last 30 days before the latest start date and writes
  the frame to a parquet file.

  The libraries the function calls (\<^verbatim>\<open>zipfile\<close>, \<^verbatim>\<open>xml.etree.ElementTree\<close>, \<^verbatim>\<open>pandas\<close>) are
  modelled by what they return: an exception is a value of \<open>error\<close>; the file system, the
  two date parsers of pandas and the writer of the parquet file are arguments of the model.
\<close>

subsection \<open>The archive and the XML document\<close>

datatype error =
    FileNotFoundError | BadZipFile | KeyError | ParseError
  | ValueError | TypeError | OutOfBoundsDatetime | OSError

text \<open>An element as \<^verbatim>\<open>ElementTree\<close> builds it: a tag, a dictionary of attributes, children.\<close>

datatype element =
  Element (tag: string) (attrib: "(string \<times> string) list") (children: "element list")

text \<open>The entry of an archive is a well-formed document or bytes the XML parser rejects.\<close>

datatype xml = Malformed | Document element

text \<open>A path names nothing, a file that is no zip archive, or an archive with its entries.\<close>

datatype disk_file = NotAZip | ZipFile "(string \<times> xml) list"

type_synonym filesystem = "string \<Rightarrow> disk_file option"

datatype event = Start | End

text \<open>
  \<^verbatim>\<open>ET.iterparse(xml_file, events=('start', 'end'))\<close>: the start and end events of every
  element, in the order of the tags in the document. An event hands out the element
  object itself; the only object the loop keeps a second reference to is the root, so an
  event carries the element together with the answer to \<^verbatim>\<open>elem is root\<close>.
\<close>

fun walk :: "bool \<Rightarrow> element \<Rightarrow> (event \<times> bool \<times> element) list" where
  "walk is_root (Element t a cs) =
     (Start, is_root, Element t a cs) # concat (map (walk False) cs)
       @ [(End, is_root, Element t a cs)]"

definition iterparse :: "element \<Rightarrow> (event \<times> bool \<times> element) list" where
  "iterparse root = walk True root"

subsection \<open>Cells, rows and data frames\<close>

text \<open>
  A timestamp is an instant, in nanoseconds since 1970-01-01T00:00:00 UTC, and the zone
  it is kept in: none (a naive timestamp, whose instant is its wall-clock reading taken
  as UTC) or a fixed offset from UTC in seconds. UTC is \<open>Offset 0\<close>.
\<close>

datatype tz = Naive | Offset int

record stamp =
  instant :: int
  zone :: tz

abbreviation UTC :: tz where
  "UTC \<equiv> Offset 0"

text \<open>What a cell of the frame holds: \<^verbatim>\<open>None\<close>, a \<^verbatim>\<open>str\<close>, \<^verbatim>\<open>NaT\<close> or a \<^verbatim>\<open>Timestamp\<close>.\<close>

datatype cell = Null | Text string | NaT | Time stamp

text \<open>A row is a dictionary from column names to cells, in insertion order.\<close>

type_synonym row = "(string \<times> cell) list"

type_synonym dataframe = "row list"

definition cell_of :: "string option \<Rightarrow> cell" where
  "cell_of v = (case v of None \<Rightarrow> Null | Some s \<Rightarrow> Text s)"

text \<open>\<^verbatim>\<open>df.columns\<close>: every record is built with the same keys, those of the first row.\<close>

definition columns :: "dataframe \<Rightarrow> string list" where
  "columns df = (case df of [] \<Rightarrow> [] | r # _ \<Rightarrow> map fst r)"

text \<open>The cell of a row in a column; a row without the key has a missing value.\<close>

definition cell_at :: "row \<Rightarrow> string \<Rightarrow> cell" where
  "cell_at r col = (case map_of r col of None \<Rightarrow> Null | Some c \<Rightarrow> c)"

text \<open>\<^verbatim>\<open>df[col]\<close>: the cells of a column.\<close>

definition column :: "dataframe \<Rightarrow> string \<Rightarrow> cell list" where
  "column df col = map (\<lambda>r. cell_at r col) df"

text \<open>\<^verbatim>\<open>df[col] = values\<close>: the values are stored row by row.\<close>

definition set_column :: "string \<Rightarrow> cell list \<Rightarrow> dataframe \<Rightarrow> dataframe" where
  "set_column col vs df = map (\<lambda>(r, v). AList.update col v r) (zip df vs)"

text \<open>\<^verbatim>\<open>df[mask]\<close>: the rows whose mask is true, in their order.\<close>

definition select_rows :: "dataframe \<Rightarrow> bool list \<Rightarrow> dataframe" where
  "select_rows df keep = map fst (filter snd (zip df keep))"

subsection \<open>The streaming filter (lines 17 to 49)\<close>

definition sleep_keywords :: "string list" where
  "sleep_keywords = [''sleep'', ''Sleep'', ''SLEEP'']"

text \<open>\<^verbatim>\<open>keyword in record_type\<close> on two strings: the keyword occurs as a substring.\<close>

fun contains :: "string \<Rightarrow> string \<Rightarrow> bool" where
  "contains kw [] = (kw = [])"
| "contains kw (c # cs) = (prefix kw (c # cs) \<or> contains kw cs)"

text \<open>
  \<^verbatim>\<open>record_type and any(keyword in record_type for keyword in sleep_keywords)\<close>:
  \<^verbatim>\<open>None\<close> and the empty string are false.
\<close>

definition sleep_related :: "string option \<Rightarrow> bool" where
  "sleep_related record_type =
     (case record_type of
        None \<Rightarrow> False
      | Some t \<Rightarrow> t \<noteq> [] \<and> list_ex (\<lambda>keyword. contains keyword t) sleep_keywords)"

text \<open>The dictionary of lines 36 to 44, from \<^verbatim>\<open>elem.get\<close> on the attributes at hand.\<close>

definition make_record :: "string \<Rightarrow> (string \<times> string) list \<Rightarrow> row" where
  "make_record record_type attrs =
     [(''type'', Text record_type),
      (''start_date'', cell_of (map_of attrs ''startDate'')),
      (''end_date'', cell_of (map_of attrs ''endDate'')),
      (''value'', cell_of (map_of attrs ''value'')),
      (''unit'', cell_of (map_of attrs ''unit'')),
      (''source_name'', cell_of (map_of attrs ''sourceName'')),
      (''creation_date'', cell_of (map_of attrs ''creationDate''))]"

text \<open>
  The state of the loop: the records appended so far, and whether \<^verbatim>\<open>root.clear()\<close> has run.
  \<^verbatim>\<open>clear()\<close> empties the attributes of an element. \<^verbatim>\<open>elem.clear()\<close> does so after the
  last event of \<open>elem\<close>, so nothing reads them again; \<^verbatim>\<open>root.clear()\<close> does so before the
  end event of the root, which then finds no attribute.
\<close>

record scan =
  sleep_records :: "row list"
  root_cleared :: bool

definition attributes_now :: "scan \<Rightarrow> bool \<Rightarrow> element \<Rightarrow> (string \<times> string) list" where
  "attributes_now st is_root elem = (if is_root \<and> root_cleared st then [] else attrib elem)"

definition handle :: "scan \<Rightarrow> event \<times> bool \<times> element \<Rightarrow> scan" where
  "handle st ev =
     (case ev of (event, is_root, elem) \<Rightarrow>
        if event = End \<and> tag elem = ''Record'' then
          let attrs = attributes_now st is_root elem;
              record_type = map_of attrs ''type''
          in \<lparr>sleep_records =
                (case record_type of
                   None \<Rightarrow> sleep_records st
                 | Some t \<Rightarrow>
                     if sleep_related record_type
                     then sleep_records st @ [make_record t attrs]
                     else sleep_records st),
              root_cleared = True\<rparr>
        else st)"

text \<open>\<^verbatim>\<open>next(context)\<close> takes the start event of the root, the loop runs over the rest.\<close>

definition read_records :: "element \<Rightarrow> row list" where
  "read_records root =
     sleep_records (foldl handle \<lparr>sleep_records = [], root_cleared = False\<rparr> (tl (iterparse root)))"

text \<open>Lines 23 to 49: the archive is opened, the entry is opened, the document is read.\<close>

definition open_export :: "filesystem \<Rightarrow> string \<Rightarrow> error + row list" where
  "open_export fs zip_path =
     (case fs zip_path of
        None \<Rightarrow> Inl FileNotFoundError
      | Some NotAZip \<Rightarrow> Inl BadZipFile
      | Some (ZipFile entries) \<Rightarrow>
          (case map_of entries ''apple_health_export/export.xml'' of
             None \<Rightarrow> Inl KeyError
           | Some Malformed \<Rightarrow> Inl ParseError
           | Some (Document root) \<Rightarrow> Inr (read_records root)))"

subsection \<open>Parsing the date columns (lines 58 to 66)\<close>

text \<open>
  What a parser of pandas makes of one string: it rejects it, reads it as a missing value
  (the empty string, \<^verbatim>\<open>NaT\<close>), or reads a timestamp in the zone the string names.
\<close>

datatype parsed = Rejected | Blank | Moment stamp

datatype errors = Raise | Coerce

text \<open>
  \<^verbatim>\<open>pd.to_datetime\<close> looks at the column before it converts a value. With a format every
  string is read on its own. Without one pandas settles from the column how its strings
  are read, or raises: on some columns whose strings name different time zones pandas
  raises \<^verbatim>\<open>ValueError\<close> whatever \<open>errors\<close> is. Which columns these are is left to the
  argument: a reader gives for a column the exception raised, or the parser of its strings.
\<close>

type_synonym reader = "cell list \<Rightarrow> error + (string \<Rightarrow> parsed)"

definition with_format :: "(string \<Rightarrow> parsed) \<Rightarrow> reader" where
  "with_format parser col = Inr parser"

text \<open>
  \<open>utc=True\<close> converts every timestamp to UTC; a naive one is taken to be in UTC. Without
  it a timestamp keeps the zone its string names, and stays naive when the string names
  none.
\<close>

definition to_utc :: "stamp \<Rightarrow> stamp" where
  "to_utc t = t\<lparr>zone := UTC\<rparr>"

definition convert :: "(string \<Rightarrow> parsed) \<Rightarrow> bool \<Rightarrow> errors \<Rightarrow> cell \<Rightarrow> error + cell" where
  "convert parser utc errs c =
     (case c of
        Null \<Rightarrow> Inr NaT
      | NaT \<Rightarrow> Inr NaT
      | Time t \<Rightarrow> Inr (Time (if utc then to_utc t else t))
      | Text s \<Rightarrow>
          (case parser s of
             Rejected \<Rightarrow> (if errs = Coerce then Inr NaT else Inl ValueError)
           | Blank \<Rightarrow> Inr NaT
           | Moment t \<Rightarrow> Inr (Time (if utc then to_utc t else t))))"

text \<open>
  The cells are converted one by one; with \<open>errors='raise'\<close>, the default, the first
  string the parser rejects raises, with \<open>errors='coerce'\<close> it becomes \<^verbatim>\<open>NaT\<close>.
\<close>

fun convert_all :: "(string \<Rightarrow> parsed) \<Rightarrow> bool \<Rightarrow> errors \<Rightarrow> cell list \<Rightarrow> error + cell list" where
  "convert_all parser utc errs [] = Inr []"
| "convert_all parser utc errs (c # cs) =
     (case convert parser utc errs c of
        Inl e \<Rightarrow> Inl e
      | Inr v \<Rightarrow>
          (case convert_all parser utc errs cs of
             Inl e \<Rightarrow> Inl e
           | Inr vs \<Rightarrow> Inr (v # vs)))"

definition to_datetime :: "reader \<Rightarrow> bool \<Rightarrow> errors \<Rightarrow> cell list \<Rightarrow> error + cell list" where
  "to_datetime reader utc errs col =
     (case reader col of
        Inl e \<Rightarrow> Inl e
      | Inr parser \<Rightarrow> convert_all parser utc errs col)"

text \<open>
  The body of the loop over \<open>date_columns\<close>. \<open>iso_parser\<close> is the parser of \<open>format='ISO8601'\<close>,
  \<open>auto_parser\<close> the reader of the call without a format. The first call passes \<open>utc=True\<close>,
  the call in the handler does not. The bare \<^verbatim>\<open>except\<close> catches whatever the first call
  raises; the call in the handler has no handler of its own.
\<close>

definition parse_column ::
  "(string \<Rightarrow> parsed) \<Rightarrow> reader \<Rightarrow> dataframe \<Rightarrow> string \<Rightarrow> error + dataframe" where
  "parse_column iso_parser auto_parser df col =
     (if col \<in> set (columns df) then
        (case to_datetime (with_format iso_parser) True Raise (column df col) of
           Inr vs \<Rightarrow> Inr (set_column col vs df)
         | Inl _ \<Rightarrow>
             (case to_datetime auto_parser False Coerce (column df col) of
                Inr vs \<Rightarrow> Inr (set_column col vs df)
              | Inl e \<Rightarrow> Inl e))
      else Inr df)"

definition date_columns :: "string list" where
  "date_columns = [''start_date'', ''end_date'', ''creation_date'']"

fun parse_dates ::
  "(string \<Rightarrow> parsed) \<Rightarrow> reader \<Rightarrow> dataframe \<Rightarrow> string list \<Rightarrow> error + dataframe" where
  "parse_dates iso_parser auto_parser df [] = Inr df"
| "parse_dates iso_parser auto_parser df (col # cols) =
     (case parse_column iso_parser auto_parser df col of
        Inl e \<Rightarrow> Inl e
      | Inr df' \<Rightarrow> parse_dates iso_parser auto_parser df' cols)"

subsection \<open>The window of 30 days (lines 68 to 74)\<close>

text \<open>The zones of the timestamps of a column, each once.\<close>

definition zones :: "cell list \<Rightarrow> tz list" where
  "zones cs = remdups (concat (map (\<lambda>c. case c of Time t \<Rightarrow> [zone t] | _ \<Rightarrow> []) cs))"

text \<open>
  Timestamps of one zone make a datetime column. Timestamps of several zones, which only
  the call without \<open>utc=True\<close> can leave, make a column of objects: there \<^verbatim>\<open>max()\<close> and
  \<^verbatim>\<open>min()\<close> compare the objects in Python and raise \<^verbatim>\<open>TypeError\<close> when the column holds
  \<^verbatim>\<open>NaT\<close>, or a naive timestamp beside the zoned ones.
\<close>

definition incomparable :: "cell list \<Rightarrow> bool" where
  "incomparable cs = (1 < length (zones cs) \<and> (NaT \<in> set cs \<or> Naive \<in> set (zones cs)))"

text \<open>
  Timestamps are compared by their instants. \<^verbatim>\<open>Series.max()\<close> and \<^verbatim>\<open>Series.min()\<close> skip
  \<^verbatim>\<open>NaT\<close> and are \<^verbatim>\<open>NaT\<close> on a column with no timestamp.
\<close>

definition later :: "cell \<Rightarrow> cell \<Rightarrow> cell" where
  "later a b =
     (case (a, b) of
        (Time s, Time t) \<Rightarrow> (if instant s < instant t then Time t else Time s)
      | (Time s, _) \<Rightarrow> Time s
      | (_, Time t) \<Rightarrow> Time t
      | _ \<Rightarrow> NaT)"

definition earlier :: "cell \<Rightarrow> cell \<Rightarrow> cell" where
  "earlier a b =
     (case (a, b) of
        (Time s, Time t) \<Rightarrow> (if instant t < instant s then Time t else Time s)
      | (Time s, _) \<Rightarrow> Time s
      | (_, Time t) \<Rightarrow> Time t
      | _ \<Rightarrow> NaT)"

definition series_max :: "cell list \<Rightarrow> error + cell" where
  "series_max cs = (if incomparable cs then Inl TypeError else Inr (foldl later NaT cs))"

definition series_min :: "cell list \<Rightarrow> error + cell" where
  "series_min cs = (if incomparable cs then Inl TypeError else Inr (foldl earlier NaT cs))"

text \<open>\<^verbatim>\<open>timedelta(days=30)\<close> in nanoseconds: 30 days of 24 hours.\<close>

definition days30 :: int where
  "days30 = 30 * 24 * 3600 * 1000000000"

text \<open>The earliest instant a timestamp of nanoseconds can hold, 1677-09-21T00:12:43.145224193.\<close>

definition timestamp_min :: int where
  "timestamp_min = - 9223372036854775807"

text \<open>
  \<^verbatim>\<open>latest_date - timedelta(days=30)\<close>: \<^verbatim>\<open>NaT\<close> minus a duration is \<^verbatim>\<open>NaT\<close>; a difference
  before the earliest timestamp raises \<^verbatim>\<open>OutOfBoundsDatetime\<close>.
\<close>

definition minus_days30 :: "cell \<Rightarrow> error + cell" where
  "minus_days30 c =
     (case c of
        Time t \<Rightarrow>
          if instant t - days30 < timestamp_min then Inl OutOfBoundsDatetime
          else Inr (Time (t\<lparr>instant := instant t - days30\<rparr>))
      | _ \<Rightarrow> Inr NaT)"

text \<open>
  \<^verbatim>\<open>df['start_date'] >= cutoff_date\<close>, cell by cell; a comparison with \<^verbatim>\<open>NaT\<close> is false.
  The column has passed \<^verbatim>\<open>max()\<close> by then, so no naive timestamp meets a zoned one here.
\<close>

definition at_or_after :: "cell \<Rightarrow> cell \<Rightarrow> bool" where
  "at_or_after c cutoff =
     (case (c, cutoff) of (Time s, Time t) \<Rightarrow> instant t \<le> instant s | _ \<Rightarrow> False)"

definition last_30_days :: "dataframe \<Rightarrow> error + dataframe" where
  "last_30_days df =
     (if ''start_date'' \<in> set (columns df) then
        (case series_max (column df ''start_date'') of
           Inl e \<Rightarrow> Inl e
         | Inr latest_date \<Rightarrow>
             (case minus_days30 latest_date of
                Inl e \<Rightarrow> Inl e
              | Inr cutoff_date \<Rightarrow>
                  Inr (select_rows df
                         (map (\<lambda>c. at_or_after c cutoff_date) (column df ''start_date'')))))
      else Inr df)"

subsection \<open>The whole function\<close>

text \<open>The lines the function prints.\<close>

datatype message =
    No_sleep_data_found_in_the_export
  | No_sleep_data_found_in_the_last_30_days
  | Extracted_records nat
  | Data_saved_to string
  | Date_range cell cell

text \<open>
  What a run that raises nothing leaves behind: the printed lines, the file written by
  \<^verbatim>\<open>to_parquet\<close> (its path and the frame, written as it is), and the returned frame
  (\<^verbatim>\<open>None\<close> on the two early returns).
\<close>

record outcome =
  printed :: "message list"
  written :: "(string \<times> dataframe) option"
  returned :: "dataframe option"

text \<open>
  \<^verbatim>\<open>df.to_parquet(output_file, index=False)\<close> stores the frame under the path or raises, as
  on a path that cannot be written (\<^verbatim>\<open>OSError\<close>): the writer is an argument that gives the
  exception raised, if any. The minimum and the maximum of line 85 are taken after the
  file is written; on the rows the window keeps they do not raise (lemma
  \<open>date_range_never_raises\<close> below).
\<close>

definition extract_sleep_data ::
  "(string \<Rightarrow> parsed) \<Rightarrow> reader \<Rightarrow> (string \<Rightarrow> dataframe \<Rightarrow> error option) \<Rightarrow> filesystem
     \<Rightarrow> string \<Rightarrow> string \<Rightarrow> error + outcome" where
  "extract_sleep_data iso_parser auto_parser to_parquet fs zip_path output_file =
     (case open_export fs zip_path of
        Inl e \<Rightarrow> Inl e
      | Inr records \<Rightarrow>
          if records = [] then
            Inr \<lparr>printed = [No_sleep_data_found_in_the_export], written = None, returned = None\<rparr>
          else
            (case parse_dates iso_parser auto_parser records date_columns of
               Inl e \<Rightarrow> Inl e
             | Inr parsed_df \<Rightarrow>
                 (case last_30_days parsed_df of
                    Inl e \<Rightarrow> Inl e
                  | Inr df \<Rightarrow>
                      if df = [] then
                        Inr \<lparr>printed = [No_sleep_data_found_in_the_last_30_days],
                             written = None, returned = None\<rparr>
                      else
                        (case to_parquet output_file df of
                           Some e \<Rightarrow> Inl e
                         | None \<Rightarrow>
                             (case series_min (column df ''start_date'') of
                                Inl e \<Rightarrow> Inl e
                              | Inr earliest \<Rightarrow>
                                  (case series_max (column df ''start_date'') of
                                     Inl e \<Rightarrow> Inl e
                                   | Inr latest \<Rightarrow>
                                       Inr \<lparr>printed =
                                              [Extracted_records (length df),
                                               Data_saved_to output_file,
                                               Date_range earliest latest],
                                            written = Some (output_file, df),
                                            returned = Some df\<rparr>))))))"

section \<open>Notions used in the statements\<close>

text \<open>The elements of a subtree in the order of their end tags, the order of the end events.\<close>

fun ends :: "element \<Rightarrow> element list" where
  "ends (Element t a cs) = concat (map ends cs) @ [Element t a cs]"

text \<open>The elements of a subtree in the order of their start tags.\<close>

fun starts :: "element \<Rightarrow> element list" where
  "starts (Element t a cs) = Element t a cs # concat (map starts cs)"

text \<open>No \<^verbatim>\<open>Record\<close> element lies inside another one, as in an export of Apple Health.\<close>

fun unnested :: "element \<Rightarrow> bool" where
  "unnested (Element t a cs) =
     ((\<forall>c \<in> set cs. unnested c)
      \<and> (t = ''Record'' \<longrightarrow> \<not> list_ex (\<lambda>e. tag e = ''Record'') (concat (map ends cs))))"

text \<open>The elements inside the root, in the order of their end tags.\<close>

definition inner_ends :: "element \<Rightarrow> element list" where
  "inner_ends root = concat (map ends (children root))"

text \<open>The test of line 31 and line 35 on an element with the attributes of the document.\<close>

definition wanted :: "element \<Rightarrow> bool" where
  "wanted e = (tag e = ''Record'' \<and> sleep_related (map_of (attrib e) ''type''))"

text \<open>The record an element gives when it passes the test.\<close>

definition record_of :: "element \<Rightarrow> row" where
  "record_of e =
     make_record (case map_of (attrib e) ''type'' of None \<Rightarrow> [] | Some t \<Rightarrow> t) (attrib e)"

text \<open>
  The root as its end event finds it: without attributes once a \<^verbatim>\<open>Record\<close> element has
  ended inside it.
\<close>

definition root_at_end :: "element \<Rightarrow> element" where
  "root_at_end root =
     (if list_ex (\<lambda>e. tag e = ''Record'') (inner_ends root)
      then Element (tag root) [] (children root) else root)"

definition seen_ends :: "element \<Rightarrow> element list" where
  "seen_ends root = inner_ends root @ [root_at_end root]"

text \<open>
  The keyword test in the words of the specification: the type attribute is present and
  one of the three literal keywords occurs in it as a substring.
\<close>

definition mentions_sleep :: "element \<Rightarrow> bool" where
  "mentions_sleep e =
     (\<exists>t. map_of (attrib e) ''type'' = Some t
          \<and> (\<exists>kw \<in> {''sleep'', ''Sleep'', ''SLEEP''}. \<exists>ps ss. t = ps @ kw @ ss))"

text \<open>The keys of a record, and the attribute each of the other six fields is read from.\<close>

definition record_keys :: "string list" where
  "record_keys =
     [''type'', ''start_date'', ''end_date'', ''value'', ''unit'', ''source_name'',
      ''creation_date'']"

definition record_fields :: "(string \<times> string) list" where
  "record_fields =
     [(''start_date'', ''startDate''), (''end_date'', ''endDate''), (''value'', ''value''),
      (''unit'', ''unit''), (''source_name'', ''sourceName''),
      (''creation_date'', ''creationDate'')]"

text \<open>Every row of a frame has the seven keys, in the order of the dictionary.\<close>

definition keyed :: "dataframe \<Rightarrow> bool" where
  "keyed df = (\<forall>r \<in> set df. map fst r = record_keys)"

section \<open>Parsers and archives for the examples\<close>

text \<open>
  A parser for the one ISO-8601 shape the examples use, \<^verbatim>\<open>YYYY-MM-DDTHH:MM:SSZ\<close>: the
  instant of that date and time in UTC, from the number of days since 1970-01-01 in the
  proleptic Gregorian calendar. The empty string is a missing value. Every other string is
  rejected here; the examples feed it only this shape and text that is no date in
  ISO-8601.
\<close>

definition digit :: "char \<Rightarrow> int option" where
  "digit c = (let n = of_char c :: int in if 48 \<le> n \<and> n \<le> 57 then Some (n - 48) else None)"

definition number :: "string \<Rightarrow> int option" where
  "number cs =
     foldl (\<lambda>acc c. case (acc, digit c) of (Some a, Some d) \<Rightarrow> Some (10 * a + d) | _ \<Rightarrow> None)
       (Some 0) cs"

definition leap_year :: "int \<Rightarrow> bool" where
  "leap_year y = (y mod 4 = 0 \<and> (y mod 100 \<noteq> 0 \<or> y mod 400 = 0))"

definition days_in_month :: "int \<Rightarrow> int \<Rightarrow> int" where
  "days_in_month y m =
     (if m = 2 then (if leap_year y then 29 else 28)
      else if m = 4 \<or> m = 6 \<or> m = 9 \<or> m = 11 then 30 else 31)"

definition days_from_civil :: "int \<Rightarrow> int \<Rightarrow> int \<Rightarrow> int" where
  "days_from_civil y m d =
     (let y' = (if m \<le> 2 then y - 1 else y);
          era = y' div 400;
          yoe = y' - era * 400;
          doy = (153 * (if 2 < m then m - 3 else m + 9) + 2) div 5 + d - 1;
          doe = yoe * 365 + yoe div 4 - yoe div 100 + doy
      in era * 146097 + doe - 719468)"

definition iso8601 :: "string \<Rightarrow> parsed" where
  "iso8601 s =
     (if s = [] then Blank
      else if length s = 20 \<and> s ! 4 = CHR ''-'' \<and> s ! 7 = CHR ''-'' \<and> s ! 10 = CHR ''T''
              \<and> s ! 13 = CHR '':'' \<and> s ! 16 = CHR '':'' \<and> s ! 19 = CHR ''Z'' then
        (case (number (take 4 s), number (take 2 (drop 5 s)), number (take 2 (drop 8 s)),
               number (take 2 (drop 11 s)), number (take 2 (drop 14 s)),
               number (take 2 (drop 17 s))) of
           (Some y, Some m, Some d, Some h, Some mi, Some sec) \<Rightarrow>
             if 1 \<le> m \<and> m \<le> 12 \<and> 1 \<le> d \<and> d \<le> days_in_month y m \<and> h < 24 \<and> mi < 60 \<and> sec < 60
             then Moment \<lparr>instant = (((days_from_civil y m d * 24 + h) * 60 + mi) * 60 + sec)
                                       * 1000000000,
                          zone = UTC\<rparr>
             else Rejected
         | _ \<Rightarrow> Rejected)
      else Rejected)"

text \<open>
  The reader of the call without a format, on the one string the examples give it:
  \<^verbatim>\<open>June 30, 2024\<close> names no zone and is read as midnight of that day, a naive timestamp. It
  raises on no column; the columns of the examples hold one zone at most.
\<close>

definition permissive_example :: reader where
  "permissive_example col =
     Inr (\<lambda>s. if s = [] then Blank
              else if s = ''June 30, 2024''
              then Moment \<lparr>instant = days_from_civil 2024 6 30 * 24 * 3600 * 1000000000,
                           zone = Naive\<rparr>
              else Rejected)"

text \<open>A disk on which every path can be written.\<close>

definition writable_disk :: "string \<Rightarrow> dataframe \<Rightarrow> error option" where
  "writable_disk path df = None"

text \<open>A \<^verbatim>\<open>Record\<close> element with a type and a start date, and a document of five of them.\<close>

definition health_record :: "string \<Rightarrow> string \<Rightarrow> element" where
  "health_record ty start = Element ''Record'' [(''type'', ty), (''startDate'', start)] []"

definition five_records :: "string \<Rightarrow> string \<Rightarrow> string \<Rightarrow> string \<Rightarrow> string \<Rightarrow> element" where
  "five_records s1 s2 s3 s4 s5 =
     Element ''HealthData'' []
       [health_record ''HKCategoryTypeIdentifierSleepAnalysis'' s1,
        health_record ''HKQuantityTypeIdentifierStepCount'' s2,
        health_record ''SleepSession'' s3,
        health_record ''sleep_efficiency'' s4,
        health_record ''HeartRate'' s5]"

text \<open>The row of such a record once its start date is a timestamp in UTC.\<close>

definition sleep_row :: "string \<Rightarrow> int \<Rightarrow> row" where
  "sleep_row ty t =
     [(''type'', Text ty), (''start_date'', Time \<lparr>instant = t, zone = UTC\<rparr>),
      (''end_date'', NaT), (''value'', Null), (''unit'', Null), (''source_name'', Null),
      (''creation_date'', NaT)]"

text \<open>A file system whose only file is \<^verbatim>\<open>export.zip\<close>, an export with the given document.\<close>

definition archive_of :: "element \<Rightarrow> filesystem" where
  "archive_of doc =
     (\<lambda>path. if path = ''export.zip''
             then Some (ZipFile [(''apple_health_export/export.xml'', Document doc)])
             else None)"

text \<open>
  Five records from May to June 2024. The latest start date, 30 June, is the one of the
  heart rate record; the latest start date of a sleep record is 20 June.
\<close>

definition may_to_june :: element where
  "may_to_june =
     five_records ''2024-05-01T00:00:00Z'' ''2024-05-31T00:00:00Z'' ''2024-06-10T00:00:00Z''
       ''2024-06-20T00:00:00Z'' ''2024-06-30T00:00:00Z''"

definition may_to_june_parsed :: dataframe where
  "may_to_june_parsed =
     [sleep_row ''HKCategoryTypeIdentifierSleepAnalysis'' 1714521600000000000,
      sleep_row ''SleepSession'' 1717977600000000000,
      sleep_row ''sleep_efficiency'' 1718841600000000000]"

definition may_to_june_table :: dataframe where
  "may_to_june_table =
     [sleep_row ''SleepSession'' 1717977600000000000,
      sleep_row ''sleep_efficiency'' 1718841600000000000]"

definition may_to_june_outcome :: outcome where
  "may_to_june_outcome =
     \<lparr>printed = [Extracted_records 2, Data_saved_to ''sleep_data.parquet'',
                 Date_range (Time \<lparr>instant = 1717977600000000000, zone = UTC\<rparr>)
                            (Time \<lparr>instant = 1718841600000000000, zone = UTC\<rparr>)],
      written = Some (''sleep_data.parquet'', may_to_june_table),
      returned = Some may_to_june_table\<rparr>"

text \<open>A root \<^verbatim>\<open>Record\<close> element that names sleep, with a \<^verbatim>\<open>Record\<close> element inside it.\<close>

definition record_in_record :: element where
  "record_in_record = Element ''Record'' [(''type'', ''sleep'')] [Element ''Record'' [] []]"

text \<open>A sleep record inside a sleep record, under a root that is no record.\<close>

definition inner_sleep :: element where
  "inner_sleep = Element ''Record'' [(''type'', ''sleep_stage'')] []"

definition outer_sleep :: element where
  "outer_sleep = Element ''Record'' [(''type'', ''SleepSession'')] [inner_sleep]"

definition nested_sleep :: element where
  "nested_sleep = Element ''HealthData'' [] [outer_sleep]"

text \<open>An export with step counts only, and exports whose sleep records have no usable start date.\<close>

definition steps_only :: element where
  "steps_only =
     Element ''HealthData'' []
       [health_record ''HKQuantityTypeIdentifierStepCount'' ''2024-06-30T00:00:00Z'']"

definition bare_record :: element where
  "bare_record = Element ''Record'' [(''type'', ''SleepSession'')] []"

definition undated_sleep :: element where
  "undated_sleep = Element ''HealthData'' [] [bare_record]"

definition undated_parsed :: dataframe where
  "undated_parsed =
     [[(''type'', Text ''SleepSession''), (''start_date'', NaT), (''end_date'', NaT),
       (''value'', Null), (''unit'', Null), (''source_name'', Null),
       (''creation_date'', NaT)]]"

definition unreadable_dates :: element where
  "unreadable_dates =
     Element ''HealthData'' []
       [health_record ''SleepSession'' ''yesterday'', health_record ''sleep_efficiency'' '''']"

definition no_dates_outcome :: outcome where
  "no_dates_outcome =
     \<lparr>printed = [No_sleep_data_found_in_the_last_30_days], written = None, returned = None\<rparr>"

text \<open>A disk with a text file and an archive of photos, and no \<^verbatim>\<open>export.zip\<close>.\<close>

definition disk_example :: filesystem where
  "disk_example =
     map_of [(''notes.txt'', NotAZip), (''photos.zip'', ZipFile [(''beach.jpg'', Malformed)])]"

text \<open>
  A sleep record whose start date is written as \<^verbatim>\<open>June 30, 2024\<close>, which is no ISO-8601
  date, and whose end date is in ISO-8601.
\<close>

definition plain_date :: element where
  "plain_date =
     Element ''Record''
       [(''type'', ''SleepSession''), (''startDate'', ''June 30, 2024''),
        (''endDate'', ''2024-06-30T08:00:00Z'')] []"

definition plain_date_export :: element where
  "plain_date_export = Element ''HealthData'' [] [plain_date]"

definition plain_date_table :: dataframe where
  "plain_date_table =
     [[(''type'', Text ''SleepSession''),
       (''start_date'', Time \<lparr>instant = 1719705600000000000, zone = Naive\<rparr>),
       (''end_date'', Time \<lparr>instant = 1719734400000000000, zone = UTC\<rparr>),
       (''value'', Null), (''unit'', Null), (''source_name'', Null),
       (''creation_date'', NaT)]]"

text \<open>
  Five records whose start dates span the 40 days that end at 2024-06-30T00:00:00Z; the
  three sleep records start on 1, 15 and 30 June.
\<close>

definition sleep_in_window :: element where
  "sleep_in_window =
     five_records ''2024-06-01T00:00:00Z'' ''2024-05-21T00:00:00Z'' ''2024-06-15T00:00:00Z''
       ''2024-06-30T00:00:00Z'' ''2024-06-10T00:00:00Z''"

section \<open>Properties\<close>

subsection \<open>The streaming filter\<close>

lemma handle_start: "handle st (Start, r, e) = st"
  by (simp add: handle_def)

lemma handle_inner:
  "handle st (End, False, e) =
     \<lparr>sleep_records = sleep_records st @ (if wanted e then [record_of e] else []),
      root_cleared = root_cleared st \<or> tag e = ''Record''\<rparr>"
  by (cases "map_of (attrib e) ''type''")
     (auto simp: handle_def attributes_now_def wanted_def record_of_def Let_def sleep_related_def)

lemma handle_root_end:
  "handle st (End, True, root) =
     (let e = (if root_cleared st then Element (tag root) [] (children root) else root)
      in \<lparr>sleep_records = sleep_records st @ (if wanted e then [record_of e] else []),
          root_cleared = root_cleared st \<or> tag root = ''Record''\<rparr>)"
  by (cases "map_of (attrib root) ''type''")
     (auto simp: handle_def attributes_now_def wanted_def record_of_def Let_def sleep_related_def)

lemma foldl_handle_children:
  assumes "\<And>c st. c \<in> set cs \<Longrightarrow>
     foldl handle st (walk False c) =
       \<lparr>sleep_records = sleep_records st @ map record_of (filter wanted (ends c)),
        root_cleared = root_cleared st \<or> list_ex (\<lambda>x. tag x = ''Record'') (ends c)\<rparr>"
  shows "foldl handle st (concat (map (walk False) cs)) =
     \<lparr>sleep_records = sleep_records st @ map record_of (filter wanted (concat (map ends cs))),
      root_cleared = root_cleared st \<or> list_ex (\<lambda>x. tag x = ''Record'') (concat (map ends cs))\<rparr>"
  using assms
proof (induction cs arbitrary: st)
  case Nil
  then show ?case by simp
next
  case (Cons c cs)
  then show ?case by (simp add: list_ex_iff) blast
qed

lemma foldl_handle_walk:
  "foldl handle st (walk False e) =
     \<lparr>sleep_records = sleep_records st @ map record_of (filter wanted (ends e)),
      root_cleared = root_cleared st \<or> list_ex (\<lambda>x. tag x = ''Record'') (ends e)\<rparr>"
proof (induction e arbitrary: st)
  case (Element t a cs)
  show ?case
    by (auto simp add: foldl_handle_children[OF Element.IH] handle_start handle_inner
        list_ex_iff)
qed

lemma read_records_eq:
  "read_records root =
     map record_of (filter wanted (inner_ends root))
       @ (if wanted (root_at_end root) then [record_of (root_at_end root)] else [])"
  by (cases root)
     (simp add: read_records_def iterparse_def foldl_handle_children[OF foldl_handle_walk]
        handle_root_end inner_ends_def root_at_end_def Let_def)

lemma read_records_seen: "read_records root = map record_of (filter wanted (seen_ends root))"
  by (simp add: read_records_eq seen_ends_def)

lemma contains_iff: "contains kw s = (\<exists>ps ss. s = ps @ kw @ ss)"
proof (induction s)
  case Nil
  then show ?case by auto
next
  case (Cons c cs)
  show ?case
  proof
    assume "contains kw (c # cs)"
    then consider "prefix kw (c # cs)" | "contains kw cs" by auto
    then show "\<exists>ps ss. c # cs = ps @ kw @ ss"
    proof cases
      case 1
      then obtain ss where "c # cs = kw @ ss" by (auto simp: prefix_def)
      then have "c # cs = [] @ kw @ ss" by simp
      then show ?thesis by blast
    next
      case 2
      with Cons.IH obtain ps ss where "cs = ps @ kw @ ss" by auto
      then have "c # cs = (c # ps) @ kw @ ss" by simp
      then show ?thesis by blast
    qed
  next
    assume "\<exists>ps ss. c # cs = ps @ kw @ ss"
    then obtain ps ss where eq: "c # cs = ps @ kw @ ss" by auto
    show "contains kw (c # cs)"
    proof (cases ps)
      case Nil
      with eq have "prefix kw (c # cs)" by (simp add: prefix_def)
      then show ?thesis by simp
    next
      case (Cons p ps')
      with eq have "cs = ps' @ kw @ ss" by simp
      then have "contains kw cs" using Cons.IH by blast
      then show ?thesis by simp
    qed
  qed
qed

lemma sleep_related_iff:
  "sleep_related v =
     (\<exists>t. v = Some t \<and> (\<exists>kw \<in> {''sleep'', ''Sleep'', ''SLEEP''}. \<exists>ps ss. t = ps @ kw @ ss))"
  by (cases v) (auto simp: sleep_related_def sleep_keywords_def contains_iff)

lemma wanted_iff: "wanted e = (tag e = ''Record'' \<and> mentions_sleep e)"
  by (simp add: wanted_def mentions_sleep_def sleep_related_iff)

lemma not_wanted_cleared: "\<not> wanted (Element t [] cs)"
  by (simp add: wanted_def sleep_related_def)

lemma root_part:
  "(if wanted (root_at_end root) then [record_of (root_at_end root)] else []) =
   (if wanted root \<and> \<not> list_ex (\<lambda>e. tag e = ''Record'') (inner_ends root)
    then [record_of root] else [])"
  by (simp add: root_at_end_def not_wanted_cleared)

lemma record_of_fields:
  "(col, name) \<in> set record_fields \<Longrightarrow>
   cell_at (record_of e) col = (case map_of (attrib e) name of None \<Rightarrow> Null | Some v \<Rightarrow> Text v)"
  by (auto simp: record_fields_def record_of_def make_record_def cell_at_def cell_of_def)

lemma ends_root: "ends root = inner_ends root @ [root]"
  by (cases root) (simp add: inner_ends_def)

lemma read_records_subseq: "subseq (read_records root) (map record_of (ends root))"
  unfolding read_records_eq root_part ends_root
  by (auto intro!: list_emb_append_mono subseq_map)

lemma make_record_keys: "map fst (make_record t attrs) = record_keys"
  by (simp add: make_record_def record_keys_def)

lemma read_records_keyed: "keyed (read_records root)"
  by (auto simp: keyed_def read_records_eq record_of_def make_record_keys)

lemma open_export_keyed: "open_export fs p = Inr records \<Longrightarrow> keyed records"
  by (auto simp: open_export_def read_records_keyed
      split: option.splits disk_file.splits xml.splits)

subsection \<open>Parsing the dates\<close>

lemma convert_all_Inr:
  "convert_all p u e cs = Inr vs \<Longrightarrow> list_all2 (\<lambda>c v. convert p u e c = Inr v) cs vs"
  by (induction cs arbitrary: vs) (auto split: sum.splits)

lemma to_datetime_length: "to_datetime r u e cs = Inr vs \<Longrightarrow> length vs = length cs"
  by (auto simp: to_datetime_def split: sum.splits
      dest!: convert_all_Inr list_all2_lengthD)

lemma set_column_keyed:
  "keyed df \<Longrightarrow> col \<in> set record_keys \<Longrightarrow> keyed (set_column col vs df)"
  unfolding keyed_def set_column_def
  by (auto simp: update_keys dest!: set_zip_leftD)

lemma columns_keyed: "keyed df \<Longrightarrow> df \<noteq> [] \<Longrightarrow> columns df = record_keys"
  by (cases df) (auto simp: keyed_def columns_def)

lemma parse_column_keyed:
  assumes "keyed df" and "parse_column i a df col = Inr df'"
  shows "keyed df'"
proof (cases "col \<in> set (columns df)")
  case True
  then have "df \<noteq> []" by (auto simp: columns_def)
  with assms(1) True have "col \<in> set record_keys" by (simp add: columns_keyed)
  with assms True show ?thesis
    by (auto simp: parse_column_def set_column_keyed split: sum.splits)
next
  case False
  with assms show ?thesis by (simp add: parse_column_def)
qed

lemma parse_dates_keyed:
  "keyed df \<Longrightarrow> parse_dates i a df cols = Inr df' \<Longrightarrow> keyed df'"
  by (induction cols arbitrary: df) (auto split: sum.splits dest: parse_column_keyed)

lemma column_set_column:
  "length vs = length df \<Longrightarrow> k \<noteq> col \<Longrightarrow> column (set_column col vs df) k = column df k"
proof (induction df arbitrary: vs)
  case Nil
  then show ?case by (simp add: column_def set_column_def)
next
  case (Cons r df)
  then obtain v vs' where "vs = v # vs'" by (cases vs) auto
  with Cons show ?case
    by (simp add: column_def set_column_def cell_at_def update_conv')
qed

lemma length_set_column: "length vs = length df \<Longrightarrow> length (set_column col vs df) = length df"
  by (simp add: set_column_def)

lemma parse_column_other:
  assumes "parse_column i a df col = Inr df'"
  shows "length df' = length df \<and> (\<forall>k. k \<noteq> col \<longrightarrow> column df' k = column df k)"
proof (cases "col \<in> set (columns df)")
  case False
  with assms show ?thesis by (simp add: parse_column_def)
next
  case True
  have "length (column df col) = length df" by (simp add: column_def)
  with assms True obtain vs where "df' = set_column col vs df" "length vs = length df"
    by (auto simp: parse_column_def split: sum.splits dest!: to_datetime_length)
  then show ?thesis by (simp add: column_set_column length_set_column)
qed

lemma parse_dates_other:
  "parse_dates i a df cols = Inr df' \<Longrightarrow>
   length df' = length df \<and> (\<forall>k. k \<notin> set cols \<longrightarrow> column df' k = column df k)"
proof (induction cols arbitrary: df)
  case Nil
  then show ?case by simp
next
  case (Cons col cols)
  from Cons.prems obtain df1 where
    1: "parse_column i a df col = Inr df1" and 2: "parse_dates i a df1 cols = Inr df'"
    by (auto split: sum.splits)
  from parse_column_other[OF 1] Cons.IH[OF 2] show ?case by auto
qed

text \<open>What the call in the handler raises is raised by the function.\<close>

lemma fallback_raises:
  assumes "col \<in> set (columns df)"
      and "to_datetime (with_format i) True Raise (column df col) = Inl e"
      and "a (column df col) = Inl e'"
  shows "parse_column i a df col = Inl e'"
  using assms by (simp add: parse_column_def to_datetime_def)

subsection \<open>The window\<close>

lemma select_rows_map: "select_rows df (map g df) = filter g df"
  unfolding select_rows_def by (induction df) auto

lemma last_30_days_Inr:
  assumes "''start_date'' \<in> set (columns df)" and "last_30_days df = Inr out"
  shows "\<exists>latest cutoff.
           series_max (column df ''start_date'') = Inr latest
           \<and> minus_days30 latest = Inr cutoff
           \<and> out = filter (\<lambda>r. at_or_after (cell_at r ''start_date'') cutoff) df"
  using assms
  by (auto simp: last_30_days_def column_def select_rows_map o_def split: sum.splits)

lemma last_30_days_subseq: "last_30_days df = Inr out \<Longrightarrow> subseq out df"
  by (auto simp: last_30_days_def column_def select_rows_map o_def
      split: sum.splits if_splits)

lemma foldl_later:
  "a = NaT \<or> (\<exists>s. a = Time s) \<Longrightarrow>
   (case foldl later a cs of
      Time m \<Rightarrow> (Time m = a \<or> Time m \<in> set cs)
                 \<and> (\<forall>t. a = Time t \<or> Time t \<in> set cs \<longrightarrow> instant t \<le> instant m)
    | NaT \<Rightarrow> a = NaT \<and> (\<forall>t. Time t \<notin> set cs)
    | _ \<Rightarrow> False)"
proof (induction cs arbitrary: a)
  case Nil
  then show ?case by auto
next
  case (Cons c cs)
  have step: "later a c = NaT \<or> (\<exists>s. later a c = Time s)"
    using Cons.prems by (cases c) (auto simp: later_def split: if_splits)
  show ?case
    using Cons.IH[OF step] Cons.prems
    by (cases c) (auto simp: later_def split: cell.splits if_splits)
qed

lemma zones_set: "set (zones cs) = {zone t |t. Time t \<in> set cs}"
  by (auto simp: zones_def split: cell.splits)

lemma zones_empty: "\<forall>t. Time t \<notin> set cs \<Longrightarrow> zones cs = []"
  using zones_set[of cs] by auto

lemma series_max_no_time: "\<forall>t. Time t \<notin> set cs \<Longrightarrow> series_max cs = Inr NaT"
  using foldl_later[of NaT cs]
  by (auto simp: series_max_def incomparable_def zones_empty split: cell.splits)

lemma series_max_Time:
  assumes "series_max cs = Inr latest" and "Time t \<in> set cs"
  shows "\<exists>m. latest = Time m \<and> Time m \<in> set cs
           \<and> instant m = Max {instant s |s. Time s \<in> set cs}"
proof -
  from assms(1) have l: "latest = foldl later NaT cs"
    by (auto simp: series_max_def split: if_splits)
  from foldl_later[of NaT cs] assms(2) l obtain m where
    m: "latest = Time m" "Time m \<in> set cs"
       "\<forall>s. Time s \<in> set cs \<longrightarrow> instant s \<le> instant m"
    by (auto split: cell.splits)
  have "{instant s |s. Time s \<in> set cs} =
        (\<lambda>c. case c of Time s \<Rightarrow> instant s | _ \<Rightarrow> 0) ` (set cs \<inter> {c. \<exists>s. c = Time s})"
    by (auto simp: image_iff split: cell.splits)
  then have fin: "finite {instant s |s. Time s \<in> set cs}" by simp
  have "Max {instant s |s. Time s \<in> set cs} = instant m"
    by (rule Max_eqI[OF fin]) (use m in auto)
  with m show ?thesis by auto
qed

lemma at_or_after_cutoff:
  assumes "c \<in> set cs"
      and "series_max cs = Inr latest" and "minus_days30 latest = Inr cutoff"
  shows "at_or_after c cutoff =
         (\<exists>t. c = Time t
              \<and> Max {instant s |s. Time s \<in> set cs} - 720 * 3600 * 1000000000 \<le> instant t)"
proof (cases c)
  case (Time t)
  with assms(1,2) obtain m where m: "latest = Time m"
      "instant m = Max {instant s |s. Time s \<in> set cs}"
    using series_max_Time[of cs latest t] by auto
  with assms(3) have "cutoff = Time (m\<lparr>instant := instant m - days30\<rparr>)"
    by (auto simp: minus_days30_def split: if_splits)
  with Time m show ?thesis
    by (simp add: at_or_after_def days30_def)
qed (simp_all add: at_or_after_def)

lemma last_30_days_nonempty:
  assumes "''start_date'' \<in> set (columns df)" and "last_30_days df = Inr out"
      and "Time t \<in> set (column df ''start_date'')"
  shows "out \<noteq> []"
proof -
  from last_30_days_Inr[OF assms(1,2)] obtain latest cutoff where
    l: "series_max (column df ''start_date'') = Inr latest"
       "minus_days30 latest = Inr cutoff"
       "out = filter (\<lambda>r. at_or_after (cell_at r ''start_date'') cutoff) df"
    by blast
  from series_max_Time[OF l(1) assms(3)] obtain m where
    m: "latest = Time m" "Time m \<in> set (column df ''start_date'')" by blast
  then obtain r where r: "r \<in> set df" "cell_at r ''start_date'' = Time m"
    by (auto simp: column_def)
  from l(2) m(1) have "cutoff = Time (m\<lparr>instant := instant m - days30\<rparr>)"
    by (auto simp: minus_days30_def split: if_splits)
  with r have "r \<in> set out"
    unfolding l(3) by (simp add: at_or_after_def days30_def)
  then show ?thesis by auto
qed

text \<open>The two failures of the window.\<close>

lemma mixed_objects_raise:
  "''start_date'' \<in> set (columns df) \<Longrightarrow> incomparable (column df ''start_date'') \<Longrightarrow>
   last_30_days df = Inl TypeError"
  by (simp add: last_30_days_def series_max_def)

lemma early_dates_raise:
  assumes "''start_date'' \<in> set (columns df)"
      and "series_max (column df ''start_date'') = Inr (Time t)"
      and "instant t - days30 < timestamp_min"
  shows "last_30_days df = Inl OutOfBoundsDatetime"
  using assms by (simp add: last_30_days_def minus_days30_def)

text \<open>
  The rows the window keeps all hold a timestamp, of zones the whole column has: their
  minimum and maximum do not raise.
\<close>

lemma incomparable_subset:
  assumes "set cs' \<subseteq> set cs" and "\<not> incomparable cs"
  shows "\<not> incomparable cs'"
proof
  assume i: "incomparable cs'"
  have sub: "set (zones cs') \<subseteq> set (zones cs)"
    using assms(1) by (auto simp: zones_set)
  have d: "length (zones xs) = card (set (zones xs))" for xs
    by (simp add: zones_def length_remdups_card_conv)
  from i have "1 < card (set (zones cs'))" by (simp add: incomparable_def d)
  also have "\<dots> \<le> card (set (zones cs))" by (rule card_mono) (use sub in auto)
  finally have "1 < length (zones cs)" by (simp add: d)
  with assms(2) have "NaT \<notin> set cs" "Naive \<notin> set (zones cs)"
    by (auto simp: incomparable_def)
  with assms(1) sub i show False by (auto simp: incomparable_def)
qed

lemma date_range_never_raises:
  assumes "''start_date'' \<in> set (columns df)" and "last_30_days df = Inr out"
  shows "\<exists>earliest latest.
           series_min (column out ''start_date'') = Inr earliest
           \<and> series_max (column out ''start_date'') = Inr latest"
proof -
  from last_30_days_Inr[OF assms] obtain latest cutoff where
    l: "series_max (column df ''start_date'') = Inr latest"
       "out = filter (\<lambda>r. at_or_after (cell_at r ''start_date'') cutoff) df"
    by blast
  from l(1) have "\<not> incomparable (column df ''start_date'')"
    by (auto simp: series_max_def split: if_splits)
  moreover have "set (column out ''start_date'') \<subseteq> set (column df ''start_date'')"
    unfolding l(2) by (auto simp: column_def)
  ultimately have "\<not> incomparable (column out ''start_date'')"
    by (rule incomparable_subset[rotated])
  then show ?thesis by (simp add: series_min_def series_max_def)
qed

subsection \<open>The whole function\<close>

lemma open_archive_of: "open_export (archive_of doc) ''export.zip'' = Inr (read_records doc)"
  by (simp add: open_export_def archive_of_def)

lemma written_is_window:
  assumes "open_export fs zip_path = Inr records"
      and "parse_dates i a records date_columns = Inr parsed"
      and "extract_sleep_data i a w fs zip_path output_file = Inr res"
      and "written res = Some (path, df)"
  shows "last_30_days parsed = Inr df \<and> df \<noteq> [] \<and> path = output_file \<and> records \<noteq> []"
  using assms
  by (auto simp: extract_sleep_data_def split: if_splits sum.splits option.splits)

text \<open>What the writer raises is raised by the function.\<close>

lemma write_raises:
  assumes "open_export fs zip_path = Inr records" and "records \<noteq> []"
      and "parse_dates i a records date_columns = Inr parsed"
      and "last_30_days parsed = Inr df" and "df \<noteq> []"
      and "w output_file df = Some e"
  shows "extract_sleep_data i a w fs zip_path output_file = Inl e"
  using assms by (simp add: extract_sleep_data_def)

text \<open>A run whose window keeps a row and whose write succeeds ends with the frame written.\<close>

lemma extract_writes:
  assumes "open_export fs zip_path = Inr records" and "records \<noteq> []"
      and "parse_dates i a records date_columns = Inr parsed"
      and "last_30_days parsed = Inr df" and "df \<noteq> []"
      and "w output_file df = None"
  shows "\<exists>earliest latest.
           extract_sleep_data i a w fs zip_path output_file =
             Inr \<lparr>printed = [Extracted_records (length df), Data_saved_to output_file,
                             Date_range earliest latest],
                  written = Some (output_file, df), returned = Some df\<rparr>"
proof -
  have k: "keyed parsed"
    using open_export_keyed[OF assms(1)] parse_dates_keyed[OF _ assms(3)] by blast
  have "length parsed = length records"
    using parse_dates_other[OF assms(3)] by simp
  with assms(2) have "parsed \<noteq> []" by auto
  with k have col: "''start_date'' \<in> set (columns parsed)"
    by (simp add: columns_keyed record_keys_def)
  from date_range_never_raises[OF col assms(4)] assms show ?thesis
    by (auto simp: extract_sleep_data_def)
qed

text \<open>
  C1. A written table is never empty, and it is the parsed frame without the rows that
  fail the test, row by row and in the same order: a parsed row is kept if and only if
  its start date is a timestamp at most 720 hours before the latest start date of the
  parsed rows, the rows without a timestamp left out of that maximum. So no row within
  the bound is dropped, equal rows are all kept, and no row with a null start date is kept.
\<close>

theorem window_invariant:
  assumes "open_export fs zip_path = Inr records"
      and "parse_dates iso_parser auto_parser records date_columns = Inr parsed"
      and "extract_sleep_data iso_parser auto_parser to_parquet fs zip_path output_file = Inr res"
      and "written res = Some (path, df)"
  shows "df \<noteq> [] \<and>
         df = filter
                (\<lambda>r. \<exists>t. cell_at r ''start_date'' = Time t \<and>
                        Max {instant s |s. Time s \<in> set (column parsed ''start_date'')}
                          - 720 * 3600 * 1000000000 \<le> instant t)
                parsed"
proof -
  from written_is_window[OF assms] have
    df: "last_30_days parsed = Inr df" "df \<noteq> []" by auto
  have k: "keyed parsed"
    using open_export_keyed[OF assms(1)] parse_dates_keyed[OF _ assms(2)] by blast
  have ne: "parsed \<noteq> []"
    using df by (auto simp: last_30_days_def columns_def)
  have col: "''start_date'' \<in> set (columns parsed)"
    using columns_keyed[OF k ne] by (simp add: record_keys_def)
  from last_30_days_Inr[OF col df(1)] obtain latest cutoff where
    l: "series_max (column parsed ''start_date'') = Inr latest"
       "minus_days30 latest = Inr cutoff"
       "df = filter (\<lambda>r. at_or_after (cell_at r ''start_date'') cutoff) parsed"
    by blast
  have "at_or_after (cell_at r ''start_date'') cutoff =
        (\<exists>t. cell_at r ''start_date'' = Time t \<and>
             Max {instant s |s. Time s \<in> set (column parsed ''start_date'')}
               - 720 * 3600 * 1000000000 \<le> instant t)"
    if "r \<in> set parsed" for r
  proof -
    from that have "cell_at r ''start_date'' \<in> set (column parsed ''start_date'')"
      by (auto simp: column_def)
    from at_or_after_cutoff[OF this l(1,2)] show ?thesis .
  qed
  then have "df = filter
                (\<lambda>r. \<exists>t. cell_at r ''start_date'' = Time t \<and>
                        Max {instant s |s. Time s \<in> set (column parsed ''start_date'')}
                          - 720 * 3600 * 1000000000 \<le> instant t)
                parsed"
    unfolding l(3) by (intro filter_cong) auto
  with df(2) show ?thesis by simp
qed

lemma may_to_june_parses:
  "parse_dates iso8601 permissive_example (read_records may_to_june) date_columns =
     Inr may_to_june_parsed"
  by code_simp

lemma may_to_june_runs:
  "extract_sleep_data iso8601 permissive_example writable_disk (archive_of may_to_june)
     ''export.zip'' ''sleep_data.parquet'' = Inr may_to_june_outcome"
  by code_simp

theorem window_invariant_witness:
  "open_export (archive_of may_to_june) ''export.zip'' = Inr (read_records may_to_june)
   \<and> parse_dates iso8601 permissive_example (read_records may_to_june) date_columns =
       Inr may_to_june_parsed
   \<and> extract_sleep_data iso8601 permissive_example writable_disk (archive_of may_to_june)
       ''export.zip'' ''sleep_data.parquet'' = Inr may_to_june_outcome
   \<and> written may_to_june_outcome = Some (''sleep_data.parquet'', may_to_june_table)
   \<and> may_to_june_table \<noteq> []
   \<and> may_to_june_table =
       filter
         (\<lambda>r. \<exists>t. cell_at r ''start_date'' = Time t \<and>
                 Max {instant s |s. Time s \<in> set (column may_to_june_parsed ''start_date'')}
                   - 720 * 3600 * 1000000000 \<le> instant t)
         may_to_june_parsed"
proof -
  have w: "written may_to_june_outcome = Some (''sleep_data.parquet'', may_to_june_table)"
    by (simp add: may_to_june_outcome_def)
  show ?thesis
    using window_invariant[OF open_archive_of may_to_june_parses may_to_june_runs w]
      open_archive_of[of may_to_june] may_to_june_parses may_to_june_runs w
    by blast
qed

text \<open>
  The keyword test of the loop is the one of the specification. For a root that is no
  \<^verbatim>\<open>Record\<close> element, the records read are those of the \<^verbatim>\<open>Record\<close> elements whose type
  attribute is present and contains \<^verbatim>\<open>sleep\<close>, \<^verbatim>\<open>Sleep\<close> or \<^verbatim>\<open>SLEEP\<close>, in the order of the
  end tags; a \<^verbatim>\<open>Record\<close> element inside another one keeps its attributes too.
\<close>

lemma keyword_filter:
  "read_records root =
     map record_of (filter (\<lambda>e. tag e = ''Record'' \<and> mentions_sleep e) (inner_ends root))
       @ (if tag root = ''Record'' \<and> mentions_sleep root
             \<and> \<not> list_ex (\<lambda>e. tag e = ''Record'') (inner_ends root)
          then [record_of root] else [])"
proof -
  have w: "wanted = (\<lambda>e. tag e = ''Record'' \<and> mentions_sleep e)"
    by (rule ext) (rule wanted_iff)
  show ?thesis
    unfolding read_records_eq root_part by (simp add: w)
qed

lemma keyword_filter_plain_root:
  "tag root \<noteq> ''Record'' \<Longrightarrow>
   read_records root =
     map record_of (filter (\<lambda>e. tag e = ''Record'' \<and> mentions_sleep e) (ends root))"
  by (simp add: keyword_filter ends_root)

text \<open>
  C2. A root \<^verbatim>\<open>Record\<close> element that contains a \<^verbatim>\<open>Record\<close> element is lost: its type
  attribute is present in the document and contains \<^verbatim>\<open>sleep\<close>, but \<^verbatim>\<open>root.clear()\<close> of line
  49 has emptied its attributes when its end event comes, and no record is read.
\<close>

theorem root_record_is_dropped:
  "tag record_in_record = ''Record''
   \<and> map_of (attrib record_in_record) ''type'' = Some ''sleep''
   \<and> mentions_sleep record_in_record
   \<and> read_records record_in_record = []"
proof -
  have "wanted record_in_record" by code_simp
  then have "mentions_sleep record_in_record" by (simp add: wanted_iff)
  moreover have "read_records record_in_record = []" by code_simp
  ultimately show ?thesis by (simp add: record_in_record_def)
qed

text \<open>
  C6. Every element the loop finds to be a sleep record gives its record, and in that
  record each of the six fields read with \<^verbatim>\<open>elem.get\<close> is the attribute as it stands when
  it is present and null when it is missing. The loop has no failing branch: \<open>read_records\<close>
  returns a list of records for every document.
\<close>

theorem missing_attribute_is_null:
  assumes "e \<in> set (seen_ends root)" and "wanted e"
  shows "record_of e \<in> set (read_records root)
         \<and> (\<forall>(col, name) \<in> set record_fields.
              cell_at (record_of e) col =
                (case map_of (attrib e) name of None \<Rightarrow> Null | Some v \<Rightarrow> Text v))"
  using assms by (auto simp: read_records_seen record_of_fields)

theorem missing_attribute_is_null_witness:
  "bare_record \<in> set (seen_ends undated_sleep) \<and> wanted bare_record
   \<and> record_of bare_record \<in> set (read_records undated_sleep)
   \<and> map_of (attrib bare_record) ''startDate'' = None
   \<and> cell_at (record_of bare_record) ''start_date'' = Null
   \<and> map_of (attrib bare_record) ''unit'' = None
   \<and> cell_at (record_of bare_record) ''unit'' = Null"
proof -
  have 1: "bare_record \<in> set (seen_ends undated_sleep)" by code_simp
  have 2: "wanted bare_record" by code_simp
  have 3: "map_of (attrib bare_record) ''startDate'' = None"
    by (simp add: bare_record_def)
  have 4: "map_of (attrib bare_record) ''unit'' = None"
    by (simp add: bare_record_def)
  have 5: "(''start_date'', ''startDate'') \<in> set record_fields"
    by (simp add: record_fields_def)
  have 6: "(''unit'', ''unit'') \<in> set record_fields"
    by (simp add: record_fields_def)
  from missing_attribute_is_null[OF 1 2] have
    r: "record_of bare_record \<in> set (read_records undated_sleep)" and
    f: "\<forall>(col, name) \<in> set record_fields.
          cell_at (record_of bare_record) col =
            (case map_of (attrib bare_record) name of None \<Rightarrow> Null | Some v \<Rightarrow> Text v)"
    by blast+
  from f 5 3 have a: "cell_at (record_of bare_record) ''start_date'' = Null" by fastforce
  from f 6 4 have b: "cell_at (record_of bare_record) ''unit'' = Null" by fastforce
  from 1 2 r 3 a 4 b show ?thesis by blast
qed

text \<open>
  C7. Opening the archive fails with \<^verbatim>\<open>FileNotFoundError\<close> when the path names nothing, with
  \<^verbatim>\<open>BadZipFile\<close> when it names a file that is no zip archive, and with \<^verbatim>\<open>KeyError\<close> when the
  archive has no entry \<^verbatim>\<open>apple_health_export/export.xml\<close>. The function has no handler
  around the two \<^verbatim>\<open>with\<close> statements: the error is its result, nothing is printed or written,
  and nothing is tried again.
\<close>

theorem archive_errors:
  "(fs zip_path = None \<longrightarrow>
      extract_sleep_data iso_parser auto_parser to_parquet fs zip_path output_file =
        Inl FileNotFoundError)
   \<and> (fs zip_path = Some NotAZip \<longrightarrow>
      extract_sleep_data iso_parser auto_parser to_parquet fs zip_path output_file =
        Inl BadZipFile)
   \<and> (fs zip_path = Some (ZipFile entries)
        \<and> map_of entries ''apple_health_export/export.xml'' = None \<longrightarrow>
      extract_sleep_data iso_parser auto_parser to_parquet fs zip_path output_file =
        Inl KeyError)"
  by (simp add: extract_sleep_data_def open_export_def)

theorem archive_errors_witness:
  "disk_example ''export.zip'' = None
   \<and> extract_sleep_data iso8601 permissive_example writable_disk disk_example ''export.zip''
        ''sleep_data.parquet'' = Inl FileNotFoundError
   \<and> disk_example ''notes.txt'' = Some NotAZip
   \<and> extract_sleep_data iso8601 permissive_example writable_disk disk_example ''notes.txt''
        ''sleep_data.parquet'' = Inl BadZipFile
   \<and> disk_example ''photos.zip'' = Some (ZipFile [(''beach.jpg'', Malformed)])
   \<and> map_of [(''beach.jpg'', Malformed)] ''apple_health_export/export.xml'' = None
   \<and> extract_sleep_data iso8601 permissive_example writable_disk disk_example ''photos.zip''
        ''sleep_data.parquet'' = Inl KeyError"
proof -
  have 1: "disk_example ''export.zip'' = None" by (simp add: disk_example_def)
  have 2: "disk_example ''notes.txt'' = Some NotAZip" by (simp add: disk_example_def)
  have 3: "disk_example ''photos.zip'' = Some (ZipFile [(''beach.jpg'', Malformed)])"
    by (simp add: disk_example_def)
  have 4: "map_of [(''beach.jpg'', Malformed)] ''apple_health_export/export.xml'' = None"
    by simp
  from archive_errors[of disk_example "''export.zip''" iso8601 permissive_example
      writable_disk "''sleep_data.parquet''" "[]"] 1
  have a: "extract_sleep_data iso8601 permissive_example writable_disk disk_example
        ''export.zip'' ''sleep_data.parquet'' = Inl FileNotFoundError" by blast
  from archive_errors[of disk_example "''notes.txt''" iso8601 permissive_example
      writable_disk "''sleep_data.parquet''" "[]"] 2
  have b: "extract_sleep_data iso8601 permissive_example writable_disk disk_example
        ''notes.txt'' ''sleep_data.parquet'' = Inl BadZipFile" by blast
  from archive_errors[of disk_example "''photos.zip''" iso8601 permissive_example
      writable_disk "''sleep_data.parquet''" "[(''beach.jpg'', Malformed)]"] 3 4
  have c: "extract_sleep_data iso8601 permissive_example writable_disk disk_example
        ''photos.zip'' ''sleep_data.parquet'' = Inl KeyError" by blast
  from 1 2 3 4 a b c show ?thesis by blast
qed

lemma unnested_order:
  "unnested e \<Longrightarrow>
   filter (\<lambda>x. tag x = ''Record'') (ends e) = filter (\<lambda>x. tag x = ''Record'') (starts e)"
proof (induction e)
  case (Element t a cs)
  have "concat (map (\<lambda>c. filter (\<lambda>x. tag x = ''Record'') (ends c)) cs) =
        concat (map (\<lambda>c. filter (\<lambda>x. tag x = ''Record'') (starts c)) cs)"
    using Element by (intro arg_cong[where f = concat] map_cong) auto
  then have inner: "filter (\<lambda>x. tag x = ''Record'') (concat (map ends cs)) =
      filter (\<lambda>x. tag x = ''Record'') (concat (map starts cs))"
    by (simp add: filter_concat o_def)
  show ?case
  proof (cases "t = ''Record''")
    case True
    with Element.prems have "filter (\<lambda>x. tag x = ''Record'') (concat (map ends cs)) = []"
      by (auto simp: list_ex_iff filter_empty_conv)
    with inner True show ?thesis by simp
  next
    case False
    with inner show ?thesis by simp
  qed
qed

lemma read_records_start_order:
  assumes "unnested root"
  shows "subseq (read_records root) (map record_of (starts root))"
proof -
  have w: "filter wanted xs = filter wanted (filter (\<lambda>x. tag x = ''Record'') xs)" for xs
    by (induction xs) (auto simp: wanted_def)
  have "read_records root = map record_of (filter wanted (seen_ends root))"
    by (rule read_records_seen)
  also have "filter wanted (seen_ends root) = filter wanted (ends root)"
  proof (cases "tag root = ''Record''")
    case True
    with assms have "\<not> list_ex (\<lambda>e. tag e = ''Record'') (inner_ends root)"
      by (cases root) (simp add: inner_ends_def)
    then show ?thesis by (simp add: seen_ends_def ends_root root_at_end_def)
  next
    case False
    then show ?thesis
      by (simp add: seen_ends_def ends_root root_at_end_def wanted_def)
  qed
  finally have "read_records root =
      map record_of (filter wanted (filter (\<lambda>x. tag x = ''Record'') (starts root)))"
    using w[of "ends root"] unnested_order[OF assms] by simp
  then show ?thesis
    by (metis subseq_filter_left subseq_map w)
qed

text \<open>
  C8 (as amended). The loop handles an element at its end event, so the records are read
  in the order of the end tags of the document; when no \<^verbatim>\<open>Record\<close> element lies inside
  another one, that is the order of the start tags, the document order. Parsing the dates
  keeps every row in its place and leaves the four other columns as they are. The rows
  written are rows of the parsed frame in the order they have there.
\<close>

theorem order_preserved:
  assumes "fs zip_path = Some (ZipFile entries)"
      and "map_of entries ''apple_health_export/export.xml'' = Some (Document root)"
      and "parse_dates iso_parser auto_parser (read_records root) date_columns = Inr parsed"
      and "extract_sleep_data iso_parser auto_parser to_parquet fs zip_path output_file = Inr res"
      and "written res = Some (path, df)"
  shows "subseq (read_records root) (map record_of (ends root))
         \<and> (unnested root \<longrightarrow> subseq (read_records root) (map record_of (starts root)))
         \<and> length parsed = length (read_records root)
         \<and> (\<forall>k. k \<notin> set date_columns \<longrightarrow> column parsed k = column (read_records root) k)
         \<and> subseq df parsed"
proof -
  have o: "open_export fs zip_path = Inr (read_records root)"
    using assms(1,2) by (simp add: open_export_def)
  from written_is_window[OF o assms(3,4,5)] have "last_30_days parsed = Inr df" by simp
  then have "subseq df parsed" by (rule last_30_days_subseq)
  with parse_dates_other[OF assms(3)] read_records_subseq[of root]
    read_records_start_order[of root]
  show ?thesis by simp
qed

theorem order_preserved_witness:
  "archive_of may_to_june ''export.zip'' =
     Some (ZipFile [(''apple_health_export/export.xml'', Document may_to_june)])
   \<and> map_of [(''apple_health_export/export.xml'', Document may_to_june)]
       ''apple_health_export/export.xml'' = Some (Document may_to_june)
   \<and> parse_dates iso8601 permissive_example (read_records may_to_june) date_columns =
       Inr may_to_june_parsed
   \<and> extract_sleep_data iso8601 permissive_example writable_disk (archive_of may_to_june)
       ''export.zip'' ''sleep_data.parquet'' = Inr may_to_june_outcome
   \<and> written may_to_june_outcome = Some (''sleep_data.parquet'', may_to_june_table)
   \<and> subseq (read_records may_to_june) (map record_of (ends may_to_june))
   \<and> unnested may_to_june
   \<and> subseq (read_records may_to_june) (map record_of (starts may_to_june))
   \<and> length may_to_june_parsed = length (read_records may_to_june)
   \<and> column may_to_june_parsed ''type'' = column (read_records may_to_june) ''type''
   \<and> subseq may_to_june_table may_to_june_parsed"
proof -
  have k: "''type'' \<notin> set date_columns" by (simp add: date_columns_def)
  have u: "unnested may_to_june" by code_simp
  have 1: "archive_of may_to_june ''export.zip'' =
     Some (ZipFile [(''apple_health_export/export.xml'', Document may_to_june)])"
    by (simp add: archive_of_def)
  have 2: "map_of [(''apple_health_export/export.xml'', Document may_to_june)]
       ''apple_health_export/export.xml'' = Some (Document may_to_june)"
    by simp
  have w: "written may_to_june_outcome = Some (''sleep_data.parquet'', may_to_june_table)"
    by (simp add: may_to_june_outcome_def)
  from order_preserved[OF 1 2 may_to_june_parses may_to_june_runs w]
    1 2 may_to_june_parses may_to_june_runs w k u
  show ?thesis by blast
qed

text \<open>
  C8, as stated, fails on a \<^verbatim>\<open>Record\<close> element inside a \<^verbatim>\<open>Record\<close> element: the inner
  element ends first and its record is read before the one of the outer element, which
  comes first in the document.
\<close>

theorem order_preserved_counterexample:
  "map record_of (filter wanted (starts nested_sleep)) =
     [record_of outer_sleep, record_of inner_sleep]
   \<and> read_records nested_sleep = [record_of inner_sleep, record_of outer_sleep]
   \<and> record_of inner_sleep \<noteq> record_of outer_sleep
   \<and> \<not> subseq (read_records nested_sleep) (map record_of (starts nested_sleep))"
  by code_simp

text \<open>
  C4. When the document gives no sleep record, the run prints that no sleep data was found
  in the export. When it gives some and the window keeps no row of the parsed frame, the
  run prints that no sleep data was found in the last 30 days. In both cases nothing is
  written, nothing is returned and nothing is raised.
\<close>

theorem empty_result:
  assumes "open_export fs zip_path = Inr records"
  shows "(records = [] \<longrightarrow>
            extract_sleep_data iso_parser auto_parser to_parquet fs zip_path output_file =
              Inr \<lparr>printed = [No_sleep_data_found_in_the_export],
                   written = None, returned = None\<rparr>)
         \<and> (records \<noteq> []
              \<and> parse_dates iso_parser auto_parser records date_columns = Inr parsed
              \<and> last_30_days parsed = Inr [] \<longrightarrow>
            extract_sleep_data iso_parser auto_parser to_parquet fs zip_path output_file =
              Inr \<lparr>printed = [No_sleep_data_found_in_the_last_30_days],
                   written = None, returned = None\<rparr>)"
  using assms by (simp add: extract_sleep_data_def)

theorem empty_result_witness:
  "open_export (archive_of steps_only) ''export.zip'' = Inr []
   \<and> extract_sleep_data iso8601 permissive_example writable_disk (archive_of steps_only)
       ''export.zip'' ''sleep_data.parquet'' =
       Inr \<lparr>printed = [No_sleep_data_found_in_the_export], written = None, returned = None\<rparr>
   \<and> open_export (archive_of undated_sleep) ''export.zip'' = Inr [record_of bare_record]
   \<and> [record_of bare_record] \<noteq> []
   \<and> parse_dates iso8601 permissive_example [record_of bare_record] date_columns =
       Inr undated_parsed
   \<and> last_30_days undated_parsed = Inr []
   \<and> extract_sleep_data iso8601 permissive_example writable_disk (archive_of undated_sleep)
        ''export.zip'' ''sleep_data.parquet'' =
        Inr \<lparr>printed = [No_sleep_data_found_in_the_last_30_days],
             written = None, returned = None\<rparr>"
proof -
  have 1: "open_export (archive_of steps_only) ''export.zip'' = Inr []" by code_simp
  have 2: "open_export (archive_of undated_sleep) ''export.zip'' = Inr [record_of bare_record]"
    by code_simp
  have 3: "parse_dates iso8601 permissive_example [record_of bare_record] date_columns =
       Inr undated_parsed" by code_simp
  have 4: "last_30_days undated_parsed = Inr []" by code_simp
  from empty_result[OF 1, where iso_parser = iso8601 and auto_parser = permissive_example
        and to_parquet = writable_disk and output_file = "''sleep_data.parquet''"]
    empty_result[OF 2, where iso_parser = iso8601 and auto_parser = permissive_example
        and to_parquet = writable_disk and output_file = "''sleep_data.parquet''"
        and parsed = undated_parsed] 1 2 3 4
  show ?thesis by simp
qed

text \<open>
  C10. When sleep records were read and no start date of the parsed frame is a timestamp,
  the latest start date is \<^verbatim>\<open>NaT\<close>, so is the cutoff, the comparison with the cutoff is
  false for every row, the window keeps no row, and the run prints that no sleep data was
  found in the last 30 days and writes nothing.
\<close>

theorem all_start_dates_null:
  assumes "open_export fs zip_path = Inr records"
      and "records \<noteq> []"
      and "parse_dates iso_parser auto_parser records date_columns = Inr parsed"
      and "\<forall>t. Time t \<notin> set (column parsed ''start_date'')"
  shows "series_max (column parsed ''start_date'') = Inr NaT
         \<and> minus_days30 NaT = Inr NaT
         \<and> (\<forall>c \<in> set (column parsed ''start_date''). \<not> at_or_after c NaT)
         \<and> last_30_days parsed = Inr []
         \<and> extract_sleep_data iso_parser auto_parser to_parquet fs zip_path output_file =
             Inr \<lparr>printed = [No_sleep_data_found_in_the_last_30_days],
                  written = None, returned = None\<rparr>"
proof -
  have m: "series_max (column parsed ''start_date'') = Inr NaT"
    using assms(4) by (rule series_max_no_time)
  have c: "minus_days30 NaT = Inr NaT" by (simp add: minus_days30_def)
  have k: "keyed parsed"
    using open_export_keyed[OF assms(1)] parse_dates_keyed[OF _ assms(3)] by blast
  have "length parsed = length records"
    using parse_dates_other[OF assms(3)] by simp
  with assms(2) have ne: "parsed \<noteq> []" by auto
  have col: "''start_date'' \<in> set (columns parsed)"
    using columns_keyed[OF k ne] by (simp add: record_keys_def)
  have n: "at_or_after x NaT = False" for x
    by (simp add: at_or_after_def split: cell.splits)
  have "select_rows parsed (map (\<lambda>c. False) (column parsed ''start_date'')) = []"
    by (simp add: column_def select_rows_map o_def)
  then have e: "last_30_days parsed = Inr []"
    using col by (simp add: last_30_days_def m c n)
  from assms(1,2,3) e m c show ?thesis
    by (simp add: extract_sleep_data_def n)
qed

theorem all_start_dates_null_witness:
  "open_export (archive_of unreadable_dates) ''export.zip'' =
     Inr (read_records unreadable_dates)
   \<and> read_records unreadable_dates \<noteq> []
   \<and> series_max (column (projr (parse_dates iso8601 permissive_example
        (read_records unreadable_dates) date_columns)) ''start_date'') = Inr NaT
   \<and> last_30_days (projr (parse_dates iso8601 permissive_example
        (read_records unreadable_dates) date_columns)) = Inr []
   \<and> extract_sleep_data iso8601 permissive_example writable_disk
        (archive_of unreadable_dates) ''export.zip'' ''sleep_data.parquet'' =
        Inr no_dates_outcome"
proof -
  have p: "parse_dates iso8601 permissive_example (read_records unreadable_dates)
        date_columns =
      Inr (projr (parse_dates iso8601 permissive_example (read_records unreadable_dates)
        date_columns))"
    by code_simp
  have c: "column (projr (parse_dates iso8601 permissive_example
        (read_records unreadable_dates) date_columns)) ''start_date'' = [NaT, NaT]"
    by code_simp
  then have 4: "\<forall>t. Time t \<notin> set (column (projr (parse_dates iso8601 permissive_example
        (read_records unreadable_dates) date_columns)) ''start_date'')" by simp
  have 2: "read_records unreadable_dates \<noteq> []" by code_simp
  from all_start_dates_null[OF open_archive_of 2 p 4,
      where to_parquet = writable_disk and output_file = "''sleep_data.parquet''"]
    open_archive_of[of unreadable_dates] 2
  show ?thesis by (simp add: no_dates_outcome_def)
qed

text \<open>
  C3. The handler of line 66 calls \<^verbatim>\<open>pd.to_datetime\<close> without \<open>utc=True\<close>, which the call
  of line 63 passes. A start date \<^verbatim>\<open>June 30, 2024\<close> makes the strict call raise; the
  column is parsed again and the row is kept, but its timestamp is naive, not in UTC.
\<close>

theorem fallback_is_not_utc:
  "to_datetime (with_format iso8601) True Raise (column [record_of plain_date] ''start_date'') =
     Inl ValueError
   \<and> parse_column iso8601 permissive_example [record_of plain_date] ''start_date'' =
       Inr [[(''type'', Text ''SleepSession''),
             (''start_date'', Time \<lparr>instant = 1719705600000000000, zone = Naive\<rparr>),
             (''end_date'', Text ''2024-06-30T08:00:00Z''),
             (''value'', Null), (''unit'', Null), (''source_name'', Null),
             (''creation_date'', Null)]]"
  by code_simp

text \<open>
  C5. The table written for that record has the seven columns, but its start date is a
  naive timestamp while its end date is a timestamp in UTC: the column that went through
  the handler of line 66 is not in UTC.
\<close>

theorem written_dates_not_all_utc:
  "extract_sleep_data iso8601 permissive_example writable_disk (archive_of plain_date_export)
     ''export.zip'' ''sleep_data.parquet'' =
     Inr \<lparr>printed =
            [Extracted_records 1, Data_saved_to ''sleep_data.parquet'',
             Date_range (Time \<lparr>instant = 1719705600000000000, zone = Naive\<rparr>)
                        (Time \<lparr>instant = 1719705600000000000, zone = Naive\<rparr>)],
          written = Some (''sleep_data.parquet'', plain_date_table),
          returned = Some plain_date_table\<rparr>
   \<and> map fst (hd plain_date_table) = record_keys
   \<and> cell_at (hd plain_date_table) ''start_date'' =
       Time \<lparr>instant = 1719705600000000000, zone = Naive\<rparr>
   \<and> cell_at (hd plain_date_table) ''end_date'' =
       Time \<lparr>instant = 1719734400000000000, zone = UTC\<rparr>"
  by code_simp

subsection \<open>The example of five records\<close>

lemma wanted_health_record: "wanted (health_record ty s) = sleep_related (Some ty)"
  by (simp add: wanted_def health_record_def)

lemma sleep_types:
  "sleep_related (Some ''HKCategoryTypeIdentifierSleepAnalysis'')"
  "\<not> sleep_related (Some ''HKQuantityTypeIdentifierStepCount'')"
  "sleep_related (Some ''SleepSession'')"
  "sleep_related (Some ''sleep_efficiency'')"
  "\<not> sleep_related (Some ''HeartRate'')"
  by code_simp+

lemma read_five_records:
  "read_records (five_records s1 s2 s3 s4 s5) =
     [record_of (health_record ''HKCategoryTypeIdentifierSleepAnalysis'' s1),
      record_of (health_record ''SleepSession'' s3),
      record_of (health_record ''sleep_efficiency'' s4)]"
proof -
  have root: "\<not> wanted (root_at_end (five_records s1 s2 s3 s4 s5))"
    by (simp add: root_at_end_def five_records_def wanted_def)
  have inner: "inner_ends (five_records s1 s2 s3 s4 s5) =
     [health_record ''HKCategoryTypeIdentifierSleepAnalysis'' s1,
      health_record ''HKQuantityTypeIdentifierStepCount'' s2,
      health_record ''SleepSession'' s3,
      health_record ''sleep_efficiency'' s4,
      health_record ''HeartRate'' s5]"
    by (simp add: inner_ends_def five_records_def health_record_def)
  show ?thesis
    unfolding read_records_eq inner using root
    by (simp add: wanted_health_record sleep_types)
qed

lemma record_of_health_record:
  "record_of (health_record ty s) =
     [(''type'', Text ty), (''start_date'', Text s), (''end_date'', Null), (''value'', Null),
      (''unit'', Null), (''source_name'', Null), (''creation_date'', Null)]"
  by (simp add: record_of_def health_record_def make_record_def cell_of_def)

lemma parse_three_rows:
  assumes "iso_parser s1 = Moment \<lparr>instant = t1, zone = z1\<rparr>"
      and "iso_parser s3 = Moment \<lparr>instant = t3, zone = z3\<rparr>"
      and "iso_parser s4 = Moment \<lparr>instant = t4, zone = z4\<rparr>"
  shows "parse_dates iso_parser auto_parser
           [record_of (health_record ty1 s1), record_of (health_record ty3 s3),
            record_of (health_record ty4 s4)] date_columns =
         Inr [sleep_row ty1 t1, sleep_row ty3 t3, sleep_row ty4 t4]"
  using assms
  by (simp add: record_of_health_record date_columns_def parse_column_def columns_def
      column_def cell_at_def to_datetime_def with_format_def convert_def to_utc_def
      set_column_def sleep_row_def)

lemma sleep_row_start: "cell_at (sleep_row ty t) ''start_date'' = Time \<lparr>instant = t, zone = UTC\<rparr>"
  by (simp add: sleep_row_def cell_at_def)

lemma window_keeps_three_rows:
  assumes "1717113600000000000 \<le> t1" "t1 \<le> 1719705600000000000"
      and "1717113600000000000 \<le> t3" "t3 \<le> 1719705600000000000"
      and "1717113600000000000 \<le> t4" "t4 \<le> 1719705600000000000"
  shows "last_30_days [sleep_row ty1 t1, sleep_row ty3 t3, sleep_row ty4 t4] =
         Inr [sleep_row ty1 t1, sleep_row ty3 t3, sleep_row ty4 t4]"
proof -
  let ?df = "[sleep_row ty1 t1, sleep_row ty3 t3, sleep_row ty4 t4]"
  let ?cs = "[Time \<lparr>instant = t1, zone = UTC\<rparr>, Time \<lparr>instant = t3, zone = UTC\<rparr>,
              Time \<lparr>instant = t4, zone = UTC\<rparr>]"
  have col: "''start_date'' \<in> set (columns ?df)"
    by (simp add: columns_def sleep_row_def)
  have cs: "column ?df ''start_date'' = ?cs"
    by (simp add: column_def sleep_row_start)
  have "\<not> incomparable ?cs" by (simp add: incomparable_def zones_def)
  then obtain latest where l: "series_max ?cs = Inr latest"
    by (simp add: series_max_def)
  from series_max_Time[OF l, of "\<lparr>instant = t1, zone = UTC\<rparr>"] obtain m where
    m: "latest = Time m" "Time m \<in> set ?cs" by auto
  from m(2) assms have b: "1717113600000000000 \<le> instant m" "instant m \<le> 1719705600000000000"
    by auto
  then have c: "minus_days30 latest = Inr (Time (m\<lparr>instant := instant m - days30\<rparr>))"
    by (simp add: m(1) minus_days30_def days30_def timestamp_min_def)
  from b assms show ?thesis
    using col
    by (simp add: last_30_days_def cs l c select_rows_def at_or_after_def days30_def)
qed

lemma iso8601_dates:
  "iso8601 ''2024-06-30T00:00:00Z'' = Moment \<lparr>instant = 1719705600000000000, zone = UTC\<rparr>"
  "iso8601 ''2024-05-31T00:00:00Z'' = Moment \<lparr>instant = 1717113600000000000, zone = UTC\<rparr>"
  "iso8601 ''2024-05-21T00:00:00Z'' = Moment \<lparr>instant = 1716249600000000000, zone = UTC\<rparr>"
  "iso8601 ''2024-06-01T00:00:00Z'' = Moment \<lparr>instant = 1717200000000000000, zone = UTC\<rparr>"
  "iso8601 ''2024-06-15T00:00:00Z'' = Moment \<lparr>instant = 1718409600000000000, zone = UTC\<rparr>"
  by code_simp+

text \<open>
  C9. For a document of five records with the five types of the example, whose three
  sleep records have start dates in ISO-8601 that lie from 2024-05-31T00:00:00Z
  (1717113600 seconds after the epoch) to 2024-06-30T00:00:00Z (1719705600 seconds after
  the epoch), the latest start date of the document, the table written holds the rows of
  these three records, in the order of the document, and nothing else: the two records of
  another type are left out whatever their start dates are.
\<close>

theorem five_records_example:
  assumes "fs zip_path = Some (ZipFile entries)"
      and "map_of entries ''apple_health_export/export.xml'' =
             Some (Document (five_records s1 s2 s3 s4 s5))"
      and "iso_parser s1 = Moment \<lparr>instant = t1, zone = z1\<rparr>"
      and "iso_parser s3 = Moment \<lparr>instant = t3, zone = z3\<rparr>"
      and "iso_parser s4 = Moment \<lparr>instant = t4, zone = z4\<rparr>"
      and "1717113600000000000 \<le> t1" "t1 \<le> 1719705600000000000"
      and "1717113600000000000 \<le> t3" "t3 \<le> 1719705600000000000"
      and "1717113600000000000 \<le> t4" "t4 \<le> 1719705600000000000"
      and "to_parquet output_file
             [sleep_row ''HKCategoryTypeIdentifierSleepAnalysis'' t1,
              sleep_row ''SleepSession'' t3, sleep_row ''sleep_efficiency'' t4] = None"
  shows "\<exists>res. extract_sleep_data iso_parser auto_parser to_parquet fs zip_path output_file
                 = Inr res
           \<and> written res =
               Some (output_file,
                 [sleep_row ''HKCategoryTypeIdentifierSleepAnalysis'' t1,
                  sleep_row ''SleepSession'' t3,
                  sleep_row ''sleep_efficiency'' t4])
           \<and> returned res =
               Some [sleep_row ''HKCategoryTypeIdentifierSleepAnalysis'' t1,
                     sleep_row ''SleepSession'' t3,
                     sleep_row ''sleep_efficiency'' t4]"
proof -
  let ?df = "[sleep_row ''HKCategoryTypeIdentifierSleepAnalysis'' t1,
              sleep_row ''SleepSession'' t3, sleep_row ''sleep_efficiency'' t4]"
  have o: "open_export fs zip_path = Inr (read_records (five_records s1 s2 s3 s4 s5))"
    using assms(1,2) by (simp add: open_export_def)
  have ne: "read_records (five_records s1 s2 s3 s4 s5) \<noteq> []"
    by (simp add: read_five_records)
  have p: "parse_dates iso_parser auto_parser (read_records (five_records s1 s2 s3 s4 s5))
      date_columns = Inr ?df"
    unfolding read_five_records by (rule parse_three_rows[OF assms(3,4,5)])
  have w: "last_30_days ?df = Inr ?df"
    by (rule window_keeps_three_rows) (use assms in auto)
  have "?df \<noteq> []" by simp
  from extract_writes[where w = to_parquet and output_file = output_file,
      OF o ne p w this assms(12)]
  show ?thesis by auto
qed

theorem five_records_example_witness:
  "archive_of sleep_in_window ''export.zip'' =
     Some (ZipFile [(''apple_health_export/export.xml'', Document sleep_in_window)])
   \<and> iso8601 ''2024-06-01T00:00:00Z'' = Moment \<lparr>instant = 1717200000000000000, zone = UTC\<rparr>
   \<and> iso8601 ''2024-06-15T00:00:00Z'' = Moment \<lparr>instant = 1718409600000000000, zone = UTC\<rparr>
   \<and> iso8601 ''2024-06-30T00:00:00Z'' = Moment \<lparr>instant = 1719705600000000000, zone = UTC\<rparr>
   \<and> iso8601 ''2024-05-31T00:00:00Z'' = Moment \<lparr>instant = 1717113600000000000, zone = UTC\<rparr>
   \<and> iso8601 ''2024-05-21T00:00:00Z'' = Moment \<lparr>instant = 1716249600000000000, zone = UTC\<rparr>
   \<and> (1719705600000000000::int) - 1716249600000000000 = 40 * 24 * 3600 * 1000000000
   \<and> (\<exists>res. extract_sleep_data iso8601 permissive_example writable_disk
              (archive_of sleep_in_window) ''export.zip'' ''sleep_data.parquet'' = Inr res
         \<and> written res =
             Some (''sleep_data.parquet'',
               [sleep_row ''HKCategoryTypeIdentifierSleepAnalysis'' 1717200000000000000,
                sleep_row ''SleepSession'' 1718409600000000000,
                sleep_row ''sleep_efficiency'' 1719705600000000000])
         \<and> returned res =
             Some [sleep_row ''HKCategoryTypeIdentifierSleepAnalysis'' 1717200000000000000,
                   sleep_row ''SleepSession'' 1718409600000000000,
                   sleep_row ''sleep_efficiency'' 1719705600000000000])"
proof -
  have 1: "archive_of sleep_in_window ''export.zip'' =
     Some (ZipFile [(''apple_health_export/export.xml'',
       Document (five_records ''2024-06-01T00:00:00Z'' ''2024-05-21T00:00:00Z''
         ''2024-06-15T00:00:00Z'' ''2024-06-30T00:00:00Z'' ''2024-06-10T00:00:00Z''))])"
    by (simp add: archive_of_def sleep_in_window_def)
  have 2: "map_of [(''apple_health_export/export.xml'',
       Document (five_records ''2024-06-01T00:00:00Z'' ''2024-05-21T00:00:00Z''
         ''2024-06-15T00:00:00Z'' ''2024-06-30T00:00:00Z'' ''2024-06-10T00:00:00Z''))]
       ''apple_health_export/export.xml'' =
     Some (Document (five_records ''2024-06-01T00:00:00Z'' ''2024-05-21T00:00:00Z''
         ''2024-06-15T00:00:00Z'' ''2024-06-30T00:00:00Z'' ''2024-06-10T00:00:00Z''))"
    by simp
  have d: "(1719705600000000000::int) - 1716249600000000000 = 40 * 24 * 3600 * 1000000000"
    by simp
  from five_records_example[where fs = "archive_of sleep_in_window"
      and zip_path = "''export.zip''" and iso_parser = iso8601
      and auto_parser = permissive_example and to_parquet = writable_disk
      and output_file = "''sleep_data.parquet''",
      OF 1 2 iso8601_dates(4) iso8601_dates(5) iso8601_dates(1)]
  have "\<exists>res. extract_sleep_data iso8601 permissive_example writable_disk
              (archive_of sleep_in_window) ''export.zip'' ''sleep_data.parquet'' = Inr res
         \<and> written res =
             Some (''sleep_data.parquet'',
               [sleep_row ''HKCategoryTypeIdentifierSleepAnalysis'' 1717200000000000000,
                sleep_row ''SleepSession'' 1718409600000000000,
                sleep_row ''sleep_efficiency'' 1719705600000000000])
         \<and> returned res =
             Some [sleep_row ''HKCategoryTypeIdentifierSleepAnalysis'' 1717200000000000000,
                   sleep_row ''SleepSession'' 1718409600000000000,
                   sleep_row ''sleep_efficiency'' 1719705600000000000]"
    by (simp add: writable_disk_def)
  with 1 d iso8601_dates show ?thesis
    by (simp add: sleep_in_window_def)
qed

end
